theory Spec2Isabelle
  imports Complex_Main "HOL-Library.Sublist"
begin

section \<open>Python values of the embedding service (app.py)\<close>

text \<open>
  A Python \<open>str\<close> is a sequence of Unicode code points, so a string is a list of
  natural numbers. \<open>py\<close> writes an ASCII literal of the source as such a string.
\<close>

type_synonym pystr = "nat list"

definition py :: "string \<Rightarrow> pystr" where
  "py s = map of_char s"

text \<open>
  \<open>str.strip()\<close> without argument removes leading and trailing whitespace; the
  whitespace characters are the code points for which \<open>str.isspace\<close> holds.
\<close>

definition isspace :: "nat \<Rightarrow> bool" where
  "isspace c \<longleftrightarrow>
     (9 \<le> c \<and> c \<le> 13) \<or> (28 \<le> c \<and> c \<le> 32) \<or> c = 133 \<or> c = 160 \<or> c = 5760 \<or>
     (8192 \<le> c \<and> c \<le> 8202) \<or> c = 8232 \<or> c = 8233 \<or> c = 8239 \<or> c = 8287 \<or> c = 12288"

definition strip :: "pystr \<Rightarrow> pystr" where
  "strip s = rev (dropWhile isspace (rev (dropWhile isspace s)))"

text \<open>
  What \<open>request.get_json()\<close> returns: \<open>None\<close>, a bool, an int, a float, a str, a
  list or a dict. A dict is the list of its items. Floats are read as reals (no NaN, no
  infinities); no property below computes with them.
\<close>

datatype json =
    JNull
  | JBool bool
  | JInt int
  | JFloat real
  | JStr pystr
  | JList "json list"
  | JObj "(pystr \<times> json) list"

text \<open>
  The exceptions a handler can meet, all subclasses of \<open>Exception\<close>. The message text
  of the interpreter's own exceptions depends on its version, so an exception keeps the
  value it is about instead of a message.
  \<^item> \<open>AttributeError v a\<close>: value \<open>v\<close> has no attribute \<open>a\<close>;
  \<^item> \<open>NotContainer v\<close>: the TypeError of \<open>x in v\<close> for a \<open>v\<close> that is no container;
  \<^item> \<open>BadSubscript v\<close>: the TypeError of \<open>v['text']\<close> for a \<open>v\<close> that is no dict;
  \<^item> \<open>KeyError k\<close>: a dict without key \<open>k\<close>;
  \<^item> \<open>NoLen\<close>: the TypeError of \<open>len\<close> applied to a numpy scalar;
  \<^item> \<open>Raised msg\<close>: an exception raised by a collaborator (Flask, the model), with
    its message.
\<close>

datatype pyexn =
    AttributeError json string
  | NotContainer json
  | BadSubscript json
  | KeyError pystr
  | NoLen
  | Raised pystr

text \<open>Truth value of a value, as \<open>not data\<close> tests it.\<close>

fun truthy :: "json \<Rightarrow> bool" where
  "truthy JNull = False"
| "truthy (JBool b) = b"
| "truthy (JInt i) = (i \<noteq> 0)"
| "truthy (JFloat x) = (x \<noteq> 0)"
| "truthy (JStr s) = (s \<noteq> [])"
| "truthy (JList xs) = (xs \<noteq> [])"
| "truthy (JObj kvs) = (kvs \<noteq> [])"

text \<open>
  \<open>k in v\<close> for a string \<open>k\<close>: key membership in a dict, element membership in a list,
  substring test in a str, a TypeError for every other value.
\<close>

fun py_in :: "pystr \<Rightarrow> json \<Rightarrow> pyexn + bool" where
  "py_in k (JObj kvs) = Inr (k \<in> set (map fst kvs))"
| "py_in k (JList xs) = Inr (JStr k \<in> set xs)"
| "py_in k (JStr s) = Inr (sublist k s)"
| "py_in k v = Inl (NotContainer v)"

text \<open>\<open>v[k]\<close> for a string \<open>k\<close>: the value of the key in a dict, a TypeError otherwise.\<close>

fun py_getitem :: "json \<Rightarrow> pystr \<Rightarrow> pyexn + json" where
  "py_getitem (JObj kvs) k = (case map_of kvs k of Some v \<Rightarrow> Inr v | None \<Rightarrow> Inl (KeyError k))"
| "py_getitem v k = Inl (BadSubscript v)"

text \<open>\<open>v.strip()\<close>: only a str has the method.\<close>

fun py_strip :: "json \<Rightarrow> pyexn + pystr" where
  "py_strip (JStr s) = Inr (strip s)"
| "py_strip v = Inl (AttributeError v ''strip'')"

fun is_str :: "json \<Rightarrow> bool" where
  "is_str (JStr s) = True"
| "is_str v = False"

text \<open>
  The condition \<open>not data or key not in data\<close> of both handlers; \<open>or\<close> does not
  evaluate its right operand when the left one holds.
\<close>

definition key_missing :: "pystr \<Rightarrow> json \<Rightarrow> pyexn + bool" where
  "key_missing k data =
     (if \<not> truthy data then Inr True
      else case py_in k data of Inl e \<Rightarrow> Inl e | Inr b \<Rightarrow> Inr (\<not> b))"

section \<open>The model\<close>

text \<open>
  A numpy array as \<open>encode\<close> returns it: one-dimensional (one vector) or
  two-dimensional (one row per sentence).
\<close>

datatype ndarray = Array1 "real list" | Array2 "real list list"

fun len :: "ndarray \<Rightarrow> nat" where
  "len (Array1 v) = length v"
| "len (Array2 rows) = length rows"

text \<open>
  \<open>len(embeddings[0]) if len(embeddings) > 0 else 0\<close>. The element of a
  one-dimensional array is a numpy scalar, which has no \<open>len\<close>.
\<close>

fun first_len :: "ndarray \<Rightarrow> pyexn + nat" where
  "first_len (Array2 []) = Inr 0"
| "first_len (Array2 (r # rows)) = Inr (length r)"
| "first_len (Array1 []) = Inr 0"
| "first_len (Array1 (x # v)) = Inl NoLen"

text \<open>
  One call \<open>model.encode(sentences, convert_to_numpy=..., normalize_embeddings=...,
  batch_size=...)\<close>; \<open>batch_size\<close> is \<open>None\<close> when the call does not pass it. The
  loaded model is the function from a call to what it returns or raises.
\<close>

record encode_call =
  sentences :: json
  convert_to_numpy :: bool
  normalize_embeddings :: bool
  batch_size :: "nat option"

type_synonym model = "encode_call \<Rightarrow> pyexn + ndarray"

text \<open>
  \<open>load_model\<close>: \<open>ctor\<close> is what the constructor \<open>SentenceTransformer(...)\<close> does,
  return the model or raise. The function takes the global \<open>model\<close> and returns it
  with the function's own result.
\<close>

definition load_model :: "pyexn + model \<Rightarrow> model option \<Rightarrow> model option \<times> bool" where
  "load_model ctor g = (case ctor of Inr m \<Rightarrow> (Some m, True) | Inl e \<Rightarrow> (g, False))"

text \<open>
  Modelled from the spec: the Model Handle's \<open>encode\<close> (section 4.1 and the
  testable properties), which the source takes from the sentence_transformers library.
  It embeds text by text with a function \<open>f\<close> of the normalization flag and the
  text: a single text is a batch of one, the output order is the input order, the
  values do not depend on the batch size, and the call fails when the model fails on
  one of its texts.
\<close>

fun encode_rows :: "(pystr \<Rightarrow> pyexn + real list) \<Rightarrow> json list \<Rightarrow> pyexn + real list list" where
  "encode_rows f [] = Inr []"
| "encode_rows f (JStr t # ts) =
     (case f t of
        Inl e \<Rightarrow> Inl e
      | Inr v \<Rightarrow> (case encode_rows f ts of Inl e \<Rightarrow> Inl e | Inr vs \<Rightarrow> Inr (v # vs)))"
| "encode_rows f (x # ts) = Inl (Raised (py ''not a text''))"

definition spec_encode :: "(bool \<Rightarrow> pystr \<Rightarrow> pyexn + real list) \<Rightarrow> model" where
  "spec_encode f c =
     (case sentences c of
        JStr t \<Rightarrow>
          (case f (normalize_embeddings c) t of Inl e \<Rightarrow> Inl e | Inr v \<Rightarrow> Inr (Array1 v))
      | JList ts \<Rightarrow>
          (case encode_rows (f (normalize_embeddings c)) ts of
             Inl e \<Rightarrow> Inl e
           | Inr vs \<Rightarrow> Inr (Array2 vs))
      | _ \<Rightarrow> Inl (Raised (py ''not a text'')))"

text \<open>
  Modelled from the spec: the L2 norm of a vector (glossary) and the contract of the
  Model Handle in the first testable property (section 8): for every text that is
  non-empty after trimming, embedding it with normalization returns a vector of the
  model's length \<open>D\<close> whose norm is within the tolerance \<open>eps\<close> of 1. The contract
  says nothing about embeddings computed without normalization.
\<close>

definition l2_norm :: "real list \<Rightarrow> real" where
  "l2_norm v = sqrt (sum_list (map (\<lambda>x. x * x) v))"

definition handle_contract :: "nat \<Rightarrow> real \<Rightarrow> (bool \<Rightarrow> pystr \<Rightarrow> pyexn + real list) \<Rightarrow> bool" where
  "handle_contract D eps f \<longleftrightarrow>
     (\<forall>t. strip t \<noteq> [] \<longrightarrow>
        (\<exists>v. f True t = Inr v \<and> length v = D \<and> \<bar>l2_norm v - 1\<bar> \<le> eps))"

section \<open>Requests and responses\<close>

text \<open>
  What a handler reads from its environment: the result of \<open>request.get_json()\<close>
  (which can raise) and the two readings of \<open>time.time()\<close>.
\<close>

record request =
  get_json :: "pyexn + json"
  time_before :: real
  time_after :: real

text \<open>
  The argument of \<open>jsonify\<close>, one constructor for each dict the source builds. A
  message is a literal of the source or \<open>str(e)\<close> of a caught exception. An array
  stands for its \<open>tolist()\<close>.
\<close>

datatype message = Literal string | Str pyexn

datatype body =
    Error message
  | StatusError string
  | StatusHealthy string
  | Embedding ndarray nat real string
  | Embeddings ndarray nat nat real string

type_synonym response = "body \<times> nat"

text \<open>
  A handler returns its response and the calls of \<open>model.encode\<close> it made, in order.
\<close>

type_synonym outcome = "response \<times> encode_call list"

text \<open>
  The two calls of the source:
  \<open>model.encode(text, convert_to_numpy=True, normalize_embeddings=True)\<close> and
  \<open>model.encode(valid_texts, convert_to_numpy=True, normalize_embeddings=True,
  batch_size=32)\<close>.
\<close>

definition text_call :: "json \<Rightarrow> encode_call" where
  "text_call text =
     \<lparr>sentences = text, convert_to_numpy = True, normalize_embeddings = True,
      batch_size = None\<rparr>"

definition batch_call :: "json list \<Rightarrow> encode_call" where
  "batch_call vs =
     \<lparr>sentences = JList vs, convert_to_numpy = True, normalize_embeddings = True,
      batch_size = Some 32\<rparr>"

definition caught :: "pyexn \<Rightarrow> response" where
  "caught e = (Error (Str e), 500)"

definition health_check :: "model option \<Rightarrow> response" where
  "health_check g =
     (case g of
        None \<Rightarrow> (StatusError ''Model not loaded'', 500)
      | Some m \<Rightarrow> (StatusHealthy ''nomic-embed-text-v1'', 200))"

definition embed_text :: "model option \<Rightarrow> request \<Rightarrow> outcome" where
  "embed_text g rq =
     (case g of
        None \<Rightarrow> ((Error (Literal ''Model not loaded''), 500), [])
      | Some m \<Rightarrow>
         (case get_json rq of
            Inl e \<Rightarrow> (caught e, [])
          | Inr data \<Rightarrow>
             (case key_missing (py ''text'') data of
                Inl e \<Rightarrow> (caught e, [])
              | Inr True \<Rightarrow> ((Error (Literal ''No text provided''), 400), [])
              | Inr False \<Rightarrow>
                 (case py_getitem data (py ''text'') of
                    Inl e \<Rightarrow> (caught e, [])
                  | Inr text \<Rightarrow>
                     (case py_strip text of
                        Inl e \<Rightarrow> (caught e, [])
                      | Inr s \<Rightarrow>
                         if s = [] then ((Error (Literal ''Empty text provided''), 400), [])
                         else
                           let c = text_call text
                           in (case m c of
                                 Inl e \<Rightarrow> (caught e, [c])
                               | Inr embedding \<Rightarrow>
                                  ((Embedding embedding (len embedding)
                                      (time_after rq - time_before rq)
                                      ''nomic-embed-text-v1'', 200), [c])))))))"

text \<open>
  The comprehension \<open>[text for text in texts if text.strip()]\<close>: the elements are
  visited in order, and the first one without \<open>strip\<close> raises.
\<close>

fun valid_texts :: "json list \<Rightarrow> pyexn + json list" where
  "valid_texts [] = Inr []"
| "valid_texts (text # texts) =
     (case py_strip text of
        Inl e \<Rightarrow> Inl e
      | Inr s \<Rightarrow>
         (case valid_texts texts of
            Inl e \<Rightarrow> Inl e
          | Inr vs \<Rightarrow> Inr (if s \<noteq> [] then text # vs else vs)))"

definition embed_batch :: "model option \<Rightarrow> request \<Rightarrow> outcome" where
  "embed_batch g rq =
     (case g of
        None \<Rightarrow> ((Error (Literal ''Model not loaded''), 500), [])
      | Some m \<Rightarrow>
         (case get_json rq of
            Inl e \<Rightarrow> (caught e, [])
          | Inr data \<Rightarrow>
             (case key_missing (py ''texts'') data of
                Inl e \<Rightarrow> (caught e, [])
              | Inr True \<Rightarrow> ((Error (Literal ''No texts provided''), 400), [])
              | Inr False \<Rightarrow>
                 (case py_getitem data (py ''texts'') of
                    Inl e \<Rightarrow> (caught e, [])
                  | Inr (JList texts) \<Rightarrow>
                     (case valid_texts texts of
                        Inl e \<Rightarrow> (caught e, [])
                      | Inr vs \<Rightarrow>
                         if vs = [] then ((Error (Literal ''No valid texts provided''), 400), [])
                         else
                           let c = batch_call vs
                           in (case m c of
                                 Inl e \<Rightarrow> (caught e, [c])
                               | Inr embeddings \<Rightarrow>
                                  (case first_len embeddings of
                                     Inl e \<Rightarrow> (caught e, [c])
                                   | Inr d \<Rightarrow>
                                      ((Embeddings embeddings (len embeddings) d
                                          (time_after rq - time_before rq)
                                          ''nomic-embed-text-v1'', 200), [c]))))
                  | Inr texts \<Rightarrow> ((Error (Literal ''Texts must be a list''), 400), [])))))"

section \<open>The process\<close>

text \<open>
  The module's state is the global \<open>model\<close>; \<open>booted\<close> tells whether the module
  level call \<open>load_model()\<close> has run. The module assigns \<open>None\<close> to \<open>model\<close>, calls
  \<open>load_model\<close> once, and then serves requests. No handler declares \<open>global model\<close>,
  so serving a request leaves the global as it is.
\<close>

record process =
  booted :: bool
  model :: "model option"

definition init :: process where
  "init = \<lparr>booted = False, model = None\<rparr>"

datatype event = Health | Embed request | Batch request

fun serve :: "model option \<Rightarrow> event \<Rightarrow> outcome" where
  "serve g Health = (health_check g, [])"
| "serve g (Embed rq) = embed_text g rq"
| "serve g (Batch rq) = embed_batch g rq"

text \<open>
  What a step shows: the startup with what the constructor did and what \<open>load_model\<close>
  returned, or a request with the handler's outcome.
\<close>

datatype label = Startup "pyexn + model" bool | Served event outcome

inductive step :: "process \<Rightarrow> label \<Rightarrow> process \<Rightarrow> bool" where
  startup: "\<not> booted p \<Longrightarrow> load_model ctor (model p) = (g, ok) \<Longrightarrow>
            step p (Startup ctor ok) \<lparr>booted = True, model = g\<rparr>"
| request: "booted p \<Longrightarrow> step p (Served ev (serve (model p) ev)) p"

text \<open>A run of the process: the labels of its steps, from the first to the last.\<close>

inductive run :: "process \<Rightarrow> label list \<Rightarrow> process \<Rightarrow> bool" where
  run_nil: "run p [] p"
| run_cons: "step p l p' \<Longrightarrow> run p' ls p'' \<Longrightarrow> run p (l # ls) p''"

text \<open>The ModelState of the specification, read off the process.\<close>

datatype model_state = Loading | Ready | Failed

definition state_of :: "process \<Rightarrow> model_state" where
  "state_of p =
     (if \<not> booted p then Loading
      else case model p of None \<Rightarrow> Failed | Some m \<Rightarrow> Ready)"

section \<open>Sample inputs\<close>

text \<open>
  A model that embeds every text as the unit vector \<open>(1, 0)\<close>, and a request with
  the given body, served between the clock readings 0 and 1.
\<close>

definition unit_model :: model where
  "unit_model = spec_encode (\<lambda>flag t. Inr [1, 0])"

text \<open>An embedding function that tells the text \<open>a\<close> from every other text.\<close>

definition two_vectors :: "bool \<Rightarrow> pystr \<Rightarrow> pyexn + real list" where
  "two_vectors flag t = (if t = py ''a'' then Inr [1, 0] else Inr [0, 1])"

text \<open>
  An embedding function that returns a unit vector only when normalization is asked
  for, and one that tells the text \<open>hello\<close> from every other text.
\<close>

definition scaling :: "bool \<Rightarrow> pystr \<Rightarrow> pyexn + real list" where
  "scaling flag t = (if flag then Inr [1, 0] else Inr [3, 4])"

definition hello_vector :: "bool \<Rightarrow> pystr \<Rightarrow> real list" where
  "hello_vector flag t = (if t = py ''hello'' then [1, 0] else [0, 1])"

definition json_request :: "json \<Rightarrow> request" where
  "json_request data = \<lparr>get_json = Inr data, time_before = 0, time_after = 1\<rparr>"

section \<open>Auxiliary facts\<close>

subsection \<open>Validation\<close>

lemma dropWhile_all: "(\<forall>x\<in>set (dropWhile P s). P x) \<longleftrightarrow> (\<forall>x\<in>set s. P x)"
proof
  assume a: "\<forall>x\<in>set (dropWhile P s). P x"
  have "dropWhile P s = []"
  proof (rule ccontr)
    assume n: "dropWhile P s \<noteq> []"
    then have "\<not> P (hd (dropWhile P s))" by (rule hd_dropWhile)
    moreover from n have "hd (dropWhile P s) \<in> set (dropWhile P s)" by simp
    ultimately show False using a by blast
  qed
  then show "\<forall>x\<in>set s. P x" by simp
qed (auto dest: set_dropWhileD)

lemma strip_empty_iff: "strip s = [] \<longleftrightarrow> (\<forall>c\<in>set s. isspace c)"
  by (simp add: strip_def dropWhile_all)

lemma key_missing_present:
  "map_of kvs k = Some v \<Longrightarrow> key_missing k (JObj kvs) = Inr False"
  by (auto simp: key_missing_def dest: map_of_SomeD intro: rev_image_eqI)

lemma key_missing_absent:
  "k \<notin> set (map fst kvs) \<Longrightarrow> key_missing k (JObj kvs) = Inr True"
  by (simp add: key_missing_def)

lemma getitem_present:
  "map_of kvs k = Some v \<Longrightarrow> py_getitem (JObj kvs) k = Inr v"
  by simp

lemma valid_texts_strings:
  "valid_texts (map JStr ts) = Inr (map JStr (filter (\<lambda>t. strip t \<noteq> []) ts))"
  by (induction ts) auto

lemma py_strip_not_str: "\<not> is_str v \<Longrightarrow> py_strip v = Inl (AttributeError v ''strip'')"
  by (cases v) auto

lemma py_strip_str: "is_str v \<Longrightarrow> \<exists>s. py_strip v = Inr s"
  by (cases v) auto

lemma valid_texts_raises:
  "\<exists>x\<in>set xs. \<not> is_str x \<Longrightarrow>
   \<exists>x\<in>set xs. \<not> is_str x \<and> valid_texts xs = Inl (AttributeError x ''strip'')"
proof (induction xs)
  case Nil
  then show ?case by simp
next
  case (Cons a xs)
  show ?case
  proof (cases "is_str a")
    case False
    then show ?thesis by (simp add: py_strip_not_str)
  next
    case True
    then obtain s where s: "py_strip a = Inr s" using py_strip_str by blast
    from True Cons.prems have "\<exists>x\<in>set xs. \<not> is_str x" by auto
    from Cons.IH [OF this] obtain x where "x \<in> set xs" "\<not> is_str x"
      "valid_texts xs = Inl (AttributeError x ''strip'')" by blast
    then show ?thesis using s by auto
  qed
qed

lemma valid_texts_sub:
  "valid_texts xs = Inr vs \<Longrightarrow> vs = filter (\<lambda>x. \<exists>s. x = JStr s \<and> strip s \<noteq> []) xs \<and> (\<forall>x\<in>set xs. is_str x)"
proof (induction xs arbitrary: vs)
  case Nil
  then show ?case by simp
next
  case (Cons a xs)
  then show ?case
    by (cases a) (auto split: sum.splits if_splits)
qed

lemma encode_rows_strings:
  "encode_rows f (map JStr ts) = Inr rows \<Longrightarrow>
   length rows = length ts \<and> (\<forall>i<length ts. f (ts ! i) = Inr (rows ! i))"
proof (induction ts arbitrary: rows)
  case Nil
  then show ?case by simp
next
  case (Cons t ts)
  then show ?case
    by (auto split: sum.splits simp: nth_Cons split: nat.splits)
qed

lemma py_strip_Inr: "py_strip x = Inr s \<Longrightarrow> \<exists>t. x = JStr t \<and> s = strip t"
  by (cases x) auto

lemma valid_texts_Inr:
  "valid_texts xs = Inr vs \<Longrightarrow> \<exists>ss. vs = map JStr ss \<and> (\<forall>t\<in>set ss. strip t \<noteq> [])"
proof (induction xs arbitrary: vs)
  case Nil
  then show ?case by simp
next
  case (Cons x xs)
  from Cons.prems obtain s ws where s: "py_strip x = Inr s" and ws: "valid_texts xs = Inr ws"
    and vs: "vs = (if s \<noteq> [] then x # ws else ws)"
    by (auto split: sum.splits)
  from Cons.IH [OF ws] obtain ss where ss: "ws = map JStr ss" "\<forall>t\<in>set ss. strip t \<noteq> []" by blast
  from py_strip_Inr [OF s] obtain t where t: "x = JStr t" "s = strip t" by blast
  show ?case
  proof (cases "s = []")
    case True
    with vs ss show ?thesis by auto
  next
    case False
    with vs ss t have "vs = map JStr (t # ss) \<and> (\<forall>u\<in>set (t # ss). strip u \<noteq> [])" by simp
    then show ?thesis by blast
  qed
qed

subsection \<open>The process is booted once\<close>

lemma step_booted:
  "step p l p' \<Longrightarrow> booted p \<Longrightarrow> p' = p \<and> (\<exists>ev. l = Served ev (serve (model p) ev))"
  by (auto elim: step.cases)

lemma step_boot:
  assumes "step p l p'" and "\<not> booted p" and "model p = None"
  shows "booted p' \<and>
   (\<exists>ctor ok. l = Startup ctor ok \<and> (ok \<longleftrightarrow> model p' \<noteq> None) \<and>
      model p' = (case ctor of Inl e \<Rightarrow> None | Inr m \<Rightarrow> Some m) \<and>
      ok = (case ctor of Inl e \<Rightarrow> False | Inr m \<Rightarrow> True))"
  using assms(1)
proof cases
  case (startup ctor g ok)
  with assms(3) show ?thesis by (cases ctor) (auto simp: load_model_def)
next
  case (request ev)
  with assms(2) show ?thesis by simp
qed

lemma run_booted:
  "run p ls p' \<Longrightarrow> booted p \<Longrightarrow>
   p' = p \<and> (\<forall>l\<in>set ls. \<exists>ev. l = Served ev (serve (model p) ev))"
proof (induction rule: run.induct)
  case (run_nil p)
  then show ?case by simp
next
  case (run_cons p l p' ls p'')
  from step_booted [OF run_cons.hyps(1) run_cons.prems]
  have 1: "p' = p" and 2: "\<exists>ev. l = Served ev (serve (model p) ev)" by auto
  with run_cons.IH run_cons.prems show ?case by auto
qed

lemma run_init_cases:
  "run init ls p \<Longrightarrow>
   (ls = [] \<and> p = init) \<or>
   (\<exists>ctor ok rest. ls = Startup ctor ok # rest \<and> step init (Startup ctor ok) p \<and> booted p \<and>
      (ok \<longleftrightarrow> model p \<noteq> None) \<and>
      model p = (case ctor of Inl e \<Rightarrow> None | Inr m \<Rightarrow> Some m) \<and>
      ok = (case ctor of Inl e \<Rightarrow> False | Inr m \<Rightarrow> True) \<and>
      (\<forall>l\<in>set rest. \<exists>ev. l = Served ev (serve (model p) ev)))"
proof -
  assume r: "run init ls p"
  from r show ?thesis
  proof cases
  case run_nil
  then show ?thesis by simp
next
  case (run_cons l q' rest)
  have nb: "\<not> booted init" "model init = None" by (simp_all add: init_def)
  from run_cons have st: "step init l q'" and rn: "run q' rest p" and ls: "ls = l # rest" by auto
  from step_boot [OF st nb] obtain ctor ok where
    b: "booted q'" and l: "l = Startup ctor ok" and ok: "ok \<longleftrightarrow> model q' \<noteq> None"
    and m: "model q' = (case ctor of Inl e \<Rightarrow> None | Inr m \<Rightarrow> Some m)"
    and k: "ok = (case ctor of Inl e \<Rightarrow> False | Inr m \<Rightarrow> True)" by blast
  from run_booted [OF rn b] have "p = q'" and "\<forall>l\<in>set rest. \<exists>ev. l = Served ev (serve (model q') ev)"
    by auto
  then have "p = q'" and "\<forall>l\<in>set rest. \<exists>ev. l = Served ev (serve (model p) ev)"
    by auto
  with st b l ok m k ls show ?thesis by blast
qed
qed

lemma run_init_unbooted: "run init ls p \<Longrightarrow> \<not> booted p \<Longrightarrow> model p = None"
  by (drule run_init_cases) (auto simp: init_def)

lemma run_init_ready: "run init ls p \<Longrightarrow> state_of p = Ready \<longleftrightarrow> model p \<noteq> None"
  using run_init_unbooted [of ls p] by (auto simp: state_of_def split: option.splits)

subsection \<open>The handlers on well-formed bodies\<close>

lemma embed_text_None: "embed_text None rq = ((Error (Literal ''Model not loaded''), 500), [])"
  by (simp add: embed_text_def)

lemma embed_batch_None: "embed_batch None rq = ((Error (Literal ''Model not loaded''), 500), [])"
  by (simp add: embed_batch_def)

lemma embed_text_valid:
  assumes "get_json rq = Inr (JObj kvs)" and "map_of kvs (py ''text'') = Some (JStr t)"
    and "strip t \<noteq> []"
  shows "embed_text (Some m) rq =
    (case m (text_call (JStr t)) of
       Inl e \<Rightarrow> (caught e, [text_call (JStr t)])
     | Inr a \<Rightarrow> ((Embedding a (len a) (time_after rq - time_before rq) ''nomic-embed-text-v1'', 200),
                 [text_call (JStr t)]))"
  using assms by (simp add: embed_text_def key_missing_present Let_def)

lemma embed_batch_list:
  assumes "get_json rq = Inr (JObj kvs)" and "map_of kvs (py ''texts'') = Some (JList xs)"
  shows "embed_batch (Some m) rq =
    (case valid_texts xs of
       Inl e \<Rightarrow> (caught e, [])
     | Inr vs \<Rightarrow>
        if vs = [] then ((Error (Literal ''No valid texts provided''), 400), [])
        else (case m (batch_call vs) of
                Inl e \<Rightarrow> (caught e, [batch_call vs])
              | Inr a \<Rightarrow>
                 (case first_len a of
                    Inl e \<Rightarrow> (caught e, [batch_call vs])
                  | Inr d \<Rightarrow>
                     ((Embeddings a (len a) d (time_after rq - time_before rq)
                         ''nomic-embed-text-v1'', 200), [batch_call vs]))))"
  using assms by (simp add: embed_batch_def key_missing_present Let_def split: sum.splits)

lemma valid_texts_all_valid:
  "\<forall>t\<in>set ts. strip t \<noteq> [] \<Longrightarrow> valid_texts (map JStr ts) = Inr (map JStr ts)"
  by (simp add: valid_texts_strings)

lemma first_len_rows: "first_len (Array2 rows) = Inr (if rows = [] then 0 else length (hd rows))"
  by (cases rows) simp_all

text \<open>
  A 200 response carries what the model returned for the one call the handler made,
  and that call asked for normalized embeddings.
\<close>

lemma embed_text_ok:
  assumes "embed_text (Some m) rq = ((Embedding a n tm nm, 200), cs)"
  shows "\<exists>t. strip t \<noteq> [] \<and> cs = [text_call (JStr t)] \<and> m (text_call (JStr t)) = Inr a \<and>
           n = len a"
  using assms
  by (clarsimp simp: embed_text_def caught_def Let_def
      split: sum.splits bool.splits if_splits dest!: py_strip_Inr) blast

lemma embed_batch_ok:
  assumes "embed_batch (Some m) rq = ((Embeddings a n d tm nm, 200), cs)"
  shows "\<exists>ss. ss \<noteq> [] \<and> (\<forall>t\<in>set ss. strip t \<noteq> []) \<and> cs = [batch_call (map JStr ss)] \<and>
           m (batch_call (map JStr ss)) = Inr a \<and> n = len a \<and> first_len a = Inr d"
  using assms
  by (clarsimp simp: embed_batch_def caught_def Let_def
      split: sum.splits bool.splits if_splits json.splits dest!: valid_texts_Inr) blast

subsection \<open>The Model Handle of the specification\<close>

lemma spec_encode_text:
  "spec_encode f (text_call (JStr t)) =
     (case f True t of Inl e \<Rightarrow> Inl e | Inr v \<Rightarrow> Inr (Array1 v))"
  by (simp add: spec_encode_def text_call_def)

lemma spec_encode_batch:
  "spec_encode f (batch_call xs) =
     (case encode_rows (f True) xs of Inl e \<Rightarrow> Inl e | Inr vs \<Rightarrow> Inr (Array2 vs))"
  by (simp add: spec_encode_def batch_call_def)

lemma encode_rows_total:
  "encode_rows (\<lambda>t. Inr (h t)) (map JStr ts) = Inr (map h ts)"
  by (induction ts) simp_all

lemma encode_rows_good:
  assumes "encode_rows g (map JStr ss) = Inr rows"
    and "\<forall>t\<in>set ss. \<forall>v. g t = Inr v \<longrightarrow> P v"
  shows "length rows = length ss \<and> (\<forall>v\<in>set rows. P v)"
proof -
  from encode_rows_strings [OF assms(1)]
  have len: "length rows = length ss" and nth: "\<forall>i<length ss. g (ss ! i) = Inr (rows ! i)"
    by auto
  have "P v" if "v \<in> set rows" for v
  proof -
    from that obtain i where i: "i < length rows" "v = rows ! i" by (auto simp: in_set_conv_nth)
    with len have "ss ! i \<in> set ss" by simp
    moreover from i len nth have "g (ss ! i) = Inr v" by simp
    ultimately show ?thesis using assms(2) by blast
  qed
  with len show ?thesis by blast
qed

lemma encode_rows_succeeds:
  "\<forall>t\<in>set ss. \<exists>v. g t = Inr v \<Longrightarrow> \<exists>rows. encode_rows g (map JStr ss) = Inr rows"
  by (induction ss) auto

lemma scaling_contract: "handle_contract 2 0 scaling"
  by (simp add: handle_contract_def scaling_def l2_norm_def)

subsection \<open>Two runs: a failed load, and a successful load followed by a health probe\<close>

lemma failed_run:
  "run init [Startup (Inl (Raised (py ''no model''))) False] \<lparr>booted = True, model = None\<rparr>"
proof -
  have "load_model (Inl (Raised (py ''no model''))) (model init) = (None, False)"
    by (simp add: load_model_def init_def)
  then have "step init (Startup (Inl (Raised (py ''no model''))) False)
      \<lparr>booted = True, model = None\<rparr>"
    by (intro step.startup) (simp_all add: init_def)
  then show ?thesis by (rule run_cons) (rule run_nil)
qed

lemma ready_run:
  "run init [Startup (Inr m) True, Served Health (serve (Some m) Health)]
     \<lparr>booted = True, model = Some m\<rparr>"
proof -
  let ?p = "\<lparr>booted = True, model = Some m\<rparr>"
  have "load_model (Inr m) (model init) = (Some m, True)"
    by (simp add: load_model_def)
  then have 1: "step init (Startup (Inr m) True) ?p"
    by (intro step.startup) (simp_all add: init_def)
  have "step ?p (Served Health (serve (model ?p) Health)) ?p"
    by (intro step.request) simp
  then have "step ?p (Served Health (serve (Some m) Health)) ?p" by simp
  then have "run ?p [Served Health (serve (Some m) Health)] ?p"
    by (rule run_cons) (rule run_nil)
  with 1 show ?thesis by (rule run_cons)
qed

section \<open>The claims\<close>

text \<open>
  Claim C1 says that a \<open>POST /embed\<close> request whose body lacks the \<open>text\<close> field is
  answered 400 (missing field) in every ModelState, the validation running before the
  readiness gate. The handler tests \<open>model is None\<close> first: with no model loaded, the
  empty object is answered 500 \<open>Model not loaded\<close>.
\<close>

theorem embed_text_unready_counterexample:
  "fst (embed_text None (json_request (JObj []))) = (Error (Literal ''Model not loaded''), 500) \<and>
   fst (embed_text None (json_request (JObj []))) \<noteq> (Error (Literal ''No text provided''), 400)"
  by (simp add: embed_text_def)

text \<open>
  Claim C1, amended: once the model is loaded, a \<open>POST /embed\<close> request whose body is
  a JSON object without the key \<open>text\<close> is answered 400 \<open>No text provided\<close>, and
  \<open>encode\<close> is not called; while no model is loaded every request is answered 500
  \<open>Model not loaded\<close>, whatever its body, because the readiness gate runs before the
  validation.
\<close>

theorem embed_text_missing_field:
  "(get_json rq = Inr (JObj kvs) \<longrightarrow> py ''text'' \<notin> set (map fst kvs) \<longrightarrow>
      embed_text (Some m) rq = ((Error (Literal ''No text provided''), 400), [])) \<and>
   embed_text None rq = ((Error (Literal ''Model not loaded''), 500), [])"
  by (simp add: embed_text_def key_missing_absent)

theorem embed_text_missing_field_witness:
  "embed_text (Some unit_model) (json_request (JObj [(py ''other'', JInt 1)])) =
     ((Error (Literal ''No text provided''), 400), []) \<and>
   embed_text None (json_request (JObj [(py ''other'', JInt 1)])) =
     ((Error (Literal ''Model not loaded''), 500), [])"
  using embed_text_missing_field [of "json_request (JObj [(py ''other'', JInt 1)])"
      "[(py ''other'', JInt 1)]" unit_model]
  by (simp add: json_request_def py_def)

text \<open>
  Claim C2: with a Model Handle that embeds text by text, as the specification
  describes it, every vector of a successful \<open>POST /embed/batch\<close> on texts that are
  non-empty after trimming is the vector that \<open>POST /embed\<close> returns for that text
  alone; and for a batch of one text the two endpoints agree: either both answer 200
  with the same vector and the same \<open>dimensions\<close>, or both answer 500 with the message
  of the same exception. Both calls ask for normalized embeddings.
\<close>

theorem batch_single_equivalence:
  assumes rb: "get_json rb = Inr (JObj kb)"
      "map_of kb (py ''texts'') = Some (JList (map JStr ts))"
    and valid: "\<forall>t\<in>set ts. strip t \<noteq> []"
    and i: "i < length ts"
    and rs: "get_json rs = Inr (JObj ks)" "map_of ks (py ''text'') = Some (JStr (ts ! i))"
  shows "(\<forall>E n d tm nm.
            fst (embed_batch (Some (spec_encode f)) rb) = (Embeddings E n d tm nm, 200) \<longrightarrow>
            (\<exists>rows. E = Array2 rows \<and> length rows = length ts \<and>
               fst (embed_text (Some (spec_encode f)) rs) =
                 (Embedding (Array1 (rows ! i)) (length (rows ! i))
                    (time_after rs - time_before rs) ''nomic-embed-text-v1'', 200))) \<and>
         (length ts = 1 \<longrightarrow>
            (case f True (ts ! i) of
               Inl e \<Rightarrow>
                 fst (embed_text (Some (spec_encode f)) rs) = (Error (Str e), 500) \<and>
                 fst (embed_batch (Some (spec_encode f)) rb) = (Error (Str e), 500)
             | Inr v \<Rightarrow>
                 fst (embed_text (Some (spec_encode f)) rs) =
                   (Embedding (Array1 v) (length v)
                      (time_after rs - time_before rs) ''nomic-embed-text-v1'', 200) \<and>
                 fst (embed_batch (Some (spec_encode f)) rb) =
                   (Embeddings (Array2 [v]) 1 (length v)
                      (time_after rb - time_before rb) ''nomic-embed-text-v1'', 200)))"
proof -
  from i have ne: "map JStr ts \<noteq> []" by auto
  from i valid have vi: "strip (ts ! i) \<noteq> []" by simp
  have single: "embed_text (Some (spec_encode f)) rs =
    (case f True (ts ! i) of
       Inl e \<Rightarrow> (caught e, [text_call (JStr (ts ! i))])
     | Inr v \<Rightarrow> ((Embedding (Array1 v) (length v) (time_after rs - time_before rs)
                    ''nomic-embed-text-v1'', 200), [text_call (JStr (ts ! i))]))"
    by (simp add: embed_text_valid [OF rs vi] spec_encode_text split: sum.splits)
  have batch: "embed_batch (Some (spec_encode f)) rb =
    (case encode_rows (f True) (map JStr ts) of
       Inl e \<Rightarrow> (caught e, [batch_call (map JStr ts)])
     | Inr rows \<Rightarrow>
         ((Embeddings (Array2 rows) (length rows) (if rows = [] then 0 else length (hd rows))
             (time_after rb - time_before rb) ''nomic-embed-text-v1'', 200),
          [batch_call (map JStr ts)]))"
    using ne
    by (simp add: embed_batch_list [OF rb] valid_texts_all_valid [OF valid] spec_encode_batch
        first_len_rows split: sum.splits)
  have A: "\<exists>rows. E = Array2 rows \<and> length rows = length ts \<and>
             fst (embed_text (Some (spec_encode f)) rs) =
               (Embedding (Array1 (rows ! i)) (length (rows ! i))
                  (time_after rs - time_before rs) ''nomic-embed-text-v1'', 200)"
    if ok: "fst (embed_batch (Some (spec_encode f)) rb) = (Embeddings E n d tm nm, 200)"
    for E n d tm nm
  proof (cases "encode_rows (f True) (map JStr ts)")
    case (Inl e)
    with ok batch show ?thesis by (simp add: caught_def)
  next
    case (Inr rows)
    from encode_rows_strings [OF Inr] i
    have len: "length rows = length ts" and fi: "f True (ts ! i) = Inr (rows ! i)" by auto
    from ok batch Inr have "E = Array2 rows" by simp
    with len fi single show ?thesis by simp
  qed
  have B: "case f True (ts ! i) of
               Inl e \<Rightarrow>
                 fst (embed_text (Some (spec_encode f)) rs) = (Error (Str e), 500) \<and>
                 fst (embed_batch (Some (spec_encode f)) rb) = (Error (Str e), 500)
             | Inr v \<Rightarrow>
                 fst (embed_text (Some (spec_encode f)) rs) =
                   (Embedding (Array1 v) (length v)
                      (time_after rs - time_before rs) ''nomic-embed-text-v1'', 200) \<and>
                 fst (embed_batch (Some (spec_encode f)) rb) =
                   (Embeddings (Array2 [v]) 1 (length v)
                      (time_after rb - time_before rb) ''nomic-embed-text-v1'', 200)"
    if one: "length ts = 1"
  proof -
    from one i have i0: "i = 0" by simp
    from one obtain t where ts: "ts = [t]" by (cases ts) auto
    show ?thesis
      by (simp add: single batch ts i0 caught_def split: sum.splits)
  qed
  from A B show ?thesis by blast
qed

theorem batch_single_equivalence_witness:
  "fst (embed_batch (Some (spec_encode two_vectors))
      (json_request (JObj [(py ''texts'', JList [JStr (py ''a''), JStr (py ''b'')])]))) =
     (Embeddings (Array2 [[1, 0], [0, 1]]) 2 2 1 ''nomic-embed-text-v1'', 200) \<and>
   fst (embed_text (Some (spec_encode two_vectors))
      (json_request (JObj [(py ''text'', JStr (py ''b''))]))) =
     (Embedding (Array1 [0, 1]) 2 1 ''nomic-embed-text-v1'', 200) \<and>
   fst (embed_batch (Some (spec_encode two_vectors))
      (json_request (JObj [(py ''texts'', JList [JStr (py ''b'')])]))) =
     (Embeddings (Array2 [[0, 1]]) 1 2 1 ''nomic-embed-text-v1'', 200)"
  using batch_single_equivalence [of
      "json_request (JObj [(py ''texts'', JList [JStr (py ''a''), JStr (py ''b'')])])"
      "[(py ''texts'', JList [JStr (py ''a''), JStr (py ''b'')])]"
      "[py ''a'', py ''b'']" 1
      "json_request (JObj [(py ''text'', JStr (py ''b''))])"
      "[(py ''text'', JStr (py ''b''))]" two_vectors]
    batch_single_equivalence [of
      "json_request (JObj [(py ''texts'', JList [JStr (py ''b'')])])"
      "[(py ''texts'', JList [JStr (py ''b'')])]"
      "[py ''b'']" 0
      "json_request (JObj [(py ''text'', JStr (py ''b''))])"
      "[(py ''text'', JStr (py ''b''))]" two_vectors]
  by (simp add: json_request_def py_def strip_def isspace_def two_vectors_def
      embed_batch_def key_missing_def valid_texts.simps spec_encode_def batch_call_def Let_def)

text \<open>
  Claim C3 says that every \<open>POST /embed/batch\<close> request whose \<open>texts\<close> is a sequence in
  which every element is discarded, the empty sequence included, fails with 400
  \<open>No valid texts provided\<close>. The handler tests \<open>model is None\<close> first: with no model
  loaded, the empty list is answered 500 \<open>Model not loaded\<close>.
\<close>

theorem batch_unready_counterexample:
  "fst (embed_batch None (json_request (JObj [(py ''texts'', JList [])]))) =
     (Error (Literal ''Model not loaded''), 500) \<and>
   fst (embed_batch None (json_request (JObj [(py ''texts'', JList [])]))) \<noteq>
     (Error (Literal ''No valid texts provided''), 400)"
  by (simp add: embed_batch_def)

text \<open>
  Claim C3, amended: once the model is loaded, for a \<open>POST /embed/batch\<close> request whose
  \<open>texts\<close> is a list of strings the validation keeps exactly the texts that are
  non-empty after trimming, in their order. If none is left (also for the empty list)
  the answer is 400 \<open>No valid texts provided\<close> and \<open>encode\<close> is not called. Otherwise
  the kept texts, unchanged and in order, are the sentences of the one call of
  \<open>encode\<close>; when that call returns vectors the answer is 200 with \<open>count\<close> the number of
  vectors returned; and with a Model Handle that returns one vector for each text, as
  the specification describes it, the answer is 200 with the vectors of the kept texts
  only and \<open>count\<close> the number of kept texts. While no model is loaded the answer is
  500 \<open>Model not loaded\<close>, whatever the texts.
\<close>

theorem batch_discards_blank_texts:
  assumes "get_json rq = Inr (JObj kvs)"
    and "map_of kvs (py ''texts'') = Some (JList (map JStr ts))"
    and "vs = filter (\<lambda>t. strip t \<noteq> []) ts"
  shows "embed_batch None rq = ((Error (Literal ''Model not loaded''), 500), []) \<and>
         (vs = [] \<longrightarrow>
            embed_batch (Some m) rq = ((Error (Literal ''No valid texts provided''), 400), [])) \<and>
         (vs \<noteq> [] \<longrightarrow>
            map sentences (snd (embed_batch (Some m) rq)) = [JList (map JStr vs)] \<and>
            (\<forall>rows.
               m \<lparr>sentences = JList (map JStr vs), convert_to_numpy = True,
                  normalize_embeddings = True, batch_size = Some 32\<rparr> = Inr (Array2 rows) \<longrightarrow>
               fst (embed_batch (Some m) rq) =
                 (Embeddings (Array2 rows) (length rows)
                    (if rows = [] then 0 else length (hd rows))
                    (time_after rq - time_before rq) ''nomic-embed-text-v1'', 200)) \<and>
            fst (embed_batch (Some (spec_encode (\<lambda>flag t. Inr (g flag t)))) rq) =
              (Embeddings (Array2 (map (g True) vs)) (length vs) (length (g True (hd vs)))
                 (time_after rq - time_before rq) ''nomic-embed-text-v1'', 200))"
proof -
  have eq: "embed_batch (Some m') rq =
    (if vs = [] then ((Error (Literal ''No valid texts provided''), 400), [])
     else (case m' (batch_call (map JStr vs)) of
             Inl e \<Rightarrow> (caught e, [batch_call (map JStr vs)])
           | Inr a \<Rightarrow>
              (case first_len a of
                 Inl e \<Rightarrow> (caught e, [batch_call (map JStr vs)])
               | Inr d \<Rightarrow>
                  ((Embeddings a (len a) d (time_after rq - time_before rq)
                      ''nomic-embed-text-v1'', 200), [batch_call (map JStr vs)]))))" for m'
    using assms(1,2) unfolding assms(3) by (simp add: embed_batch_list valid_texts_strings)
  have call: "batch_call (map JStr vs) =
      \<lparr>sentences = JList (map JStr vs), convert_to_numpy = True,
       normalize_embeddings = True, batch_size = Some 32\<rparr>"
    by (simp add: batch_call_def)
  have 1: "embed_batch None rq = ((Error (Literal ''Model not loaded''), 500), [])"
    by (rule embed_batch_None)
  have 2: "embed_batch (Some m) rq = ((Error (Literal ''No valid texts provided''), 400), [])"
    if "vs = []"
    using that by (simp add: eq)
  have 3: "map sentences (snd (embed_batch (Some m) rq)) = [JList (map JStr vs)]" if "vs \<noteq> []"
    using that by (simp add: eq [of m] call split: sum.splits)
  have 4: "fst (embed_batch (Some m) rq) =
        (Embeddings (Array2 rows) (length rows) (if rows = [] then 0 else length (hd rows))
           (time_after rq - time_before rq) ''nomic-embed-text-v1'', 200)"
    if "vs \<noteq> []"
      and "m \<lparr>sentences = JList (map JStr vs), convert_to_numpy = True,
             normalize_embeddings = True, batch_size = Some 32\<rparr> = Inr (Array2 rows)" for rows
    using that by (simp add: eq [of m] call first_len_rows)
  have 5: "fst (embed_batch (Some (spec_encode (\<lambda>flag t. Inr (g flag t)))) rq) =
        (Embeddings (Array2 (map (g True) vs)) (length vs) (length (g True (hd vs)))
           (time_after rq - time_before rq) ''nomic-embed-text-v1'', 200)"
    if "vs \<noteq> []"
    using that
    by (simp add: eq spec_encode_batch encode_rows_total first_len_rows hd_map)
  from 1 2 3 4 5 show ?thesis by blast
qed

theorem batch_discards_blank_texts_witness:
  "fst (embed_batch (Some (spec_encode (\<lambda>flag t. Inr (hello_vector flag t))))
      (json_request (JObj [(py ''texts'', JList [JStr (py ''''), JStr (py ''  ''), JStr (py ''hello'')])]))) =
     (Embeddings (Array2 [[1, 0]]) 1 2 1 ''nomic-embed-text-v1'', 200) \<and>
   map sentences (snd (embed_batch (Some (spec_encode (\<lambda>flag t. Inr (hello_vector flag t))))
      (json_request (JObj [(py ''texts'', JList [JStr (py ''''), JStr (py ''  ''), JStr (py ''hello'')])])))) =
     [JList [JStr (py ''hello'')]] \<and>
   embed_batch (Some unit_model)
      (json_request (JObj [(py ''texts'', JList [JStr (py ''''), JStr (py ''  '')])])) =
     ((Error (Literal ''No valid texts provided''), 400), []) \<and>
   embed_batch (Some unit_model) (json_request (JObj [(py ''texts'', JList [])])) =
     ((Error (Literal ''No valid texts provided''), 400), []) \<and>
   embed_batch None (json_request (JObj [(py ''texts'', JList [])])) =
     ((Error (Literal ''Model not loaded''), 500), [])"
  using batch_discards_blank_texts [of
      "json_request (JObj [(py ''texts'', JList [JStr (py ''''), JStr (py ''  ''), JStr (py ''hello'')])])"
      "[(py ''texts'', JList [JStr (py ''''), JStr (py ''  ''), JStr (py ''hello'')])]"
      "[py '''', py ''  '', py ''hello'']" "[py ''hello'']"
      "spec_encode (\<lambda>flag t. Inr (hello_vector flag t))" hello_vector]
    batch_discards_blank_texts [of
      "json_request (JObj [(py ''texts'', JList [JStr (py ''''), JStr (py ''  '')])])"
      "[(py ''texts'', JList [JStr (py ''''), JStr (py ''  '')])]"
      "[py '''', py ''  '']" "[]" unit_model hello_vector]
    batch_discards_blank_texts [of
      "json_request (JObj [(py ''texts'', JList [])])"
      "[(py ''texts'', JList [])]" "[]" "[]" unit_model hello_vector]
  by (simp add: json_request_def py_def strip_def isspace_def hello_vector_def)

text \<open>
  Claim C4: whenever the ModelState is not Ready (before the load, or after a failed
  load), \<open>POST /embed\<close> and \<open>POST /embed/batch\<close> answer 500 \<open>Model not loaded\<close> and
  make no call of the model's \<open>encode\<close>.
\<close>

theorem unready_never_encodes:
  "run init ls p \<Longrightarrow> state_of p \<noteq> Ready \<Longrightarrow>
   embed_text (model p) rq = ((Error (Literal ''Model not loaded''), 500), []) \<and>
   embed_batch (model p) rq = ((Error (Literal ''Model not loaded''), 500), [])"
  by (simp add: run_init_ready embed_text_None embed_batch_None)

theorem unready_never_encodes_witness:
  "state_of \<lparr>booted = True, model = None\<rparr> = Failed \<and>
   embed_text (model \<lparr>booted = True, model = None\<rparr>)
       (json_request (JObj [(py ''text'', JStr (py ''hello''))])) =
     ((Error (Literal ''Model not loaded''), 500), []) \<and>
   embed_batch (model \<lparr>booted = True, model = None\<rparr>)
       (json_request (JObj [(py ''text'', JStr (py ''hello''))])) =
     ((Error (Literal ''Model not loaded''), 500), [])"
  using unready_never_encodes [OF failed_run, of "json_request (JObj [(py ''text'', JStr (py ''hello''))])"]
  by (simp add: state_of_def)

text \<open>
  Claim C5: \<open>GET /health\<close> answers 500 with \<open>{status: error, message}\<close> if and only if
  the ModelState is not Ready, and 200 with \<open>{status: healthy, model}\<close> otherwise.
\<close>

theorem health_check_by_state:
  "run init ls p \<Longrightarrow>
   health_check (model p) =
     (if state_of p = Ready then (StatusHealthy ''nomic-embed-text-v1'', 200)
      else (StatusError ''Model not loaded'', 500)) \<and>
   (snd (health_check (model p)) = 500 \<longleftrightarrow> state_of p \<noteq> Ready)"
  by (auto simp: run_init_ready health_check_def split: option.splits)

theorem health_check_by_state_witness:
  "health_check (model \<lparr>booted = True, model = Some unit_model\<rparr>) =
     (StatusHealthy ''nomic-embed-text-v1'', 200) \<and>
   health_check (model \<lparr>booted = True, model = None\<rparr>) = (StatusError ''Model not loaded'', 500) \<and>
   health_check (model init) = (StatusError ''Model not loaded'', 500)"
  using health_check_by_state [OF ready_run [of unit_model]]
    health_check_by_state [OF failed_run]
    health_check_by_state [OF run_nil [of init]]
  by (simp add: state_of_def init_def)

text \<open>
  Claim C6: the ModelState is written once. A process starts in Loading; its first step
  is the only call of \<open>load_model\<close>, and it leaves the process in Ready, holding the
  model the constructor returned, when the constructor returns, and in Failed, holding
  no model, when the constructor raises; every later step serves a request and leaves
  the process state as it is, so the load is never retried and no handler changes the
  state.
\<close>

theorem model_state_write_once:
  "run init ls p \<Longrightarrow>
   state_of init = Loading \<and>
   ((ls = [] \<and> p = init) \<or>
    (\<exists>ctor ok rest. ls = Startup ctor ok # rest \<and>
       p = \<lparr>booted = True, model = (case ctor of Inl e \<Rightarrow> None | Inr m \<Rightarrow> Some m)\<rparr> \<and>
       ok = (case ctor of Inl e \<Rightarrow> False | Inr m \<Rightarrow> True) \<and>
       state_of p = (case ctor of Inl e \<Rightarrow> Failed | Inr m \<Rightarrow> Ready) \<and>
       (\<forall>l\<in>set rest. \<exists>ev. l = Served ev (serve (model p) ev)))) \<and>
   (\<forall>ls' p'. state_of p \<noteq> Loading \<longrightarrow> run p ls' p' \<longrightarrow>
       p' = p \<and> (\<forall>l\<in>set ls'. \<exists>ev. l = Served ev (serve (model p) ev)))"
proof -
  assume r: "run init ls p"
  have 1: "state_of init = Loading" by (simp add: state_of_def init_def)
  have 2: "(ls = [] \<and> p = init) \<or>
    (\<exists>ctor ok rest. ls = Startup ctor ok # rest \<and>
       p = \<lparr>booted = True, model = (case ctor of Inl e \<Rightarrow> None | Inr m \<Rightarrow> Some m)\<rparr> \<and>
       ok = (case ctor of Inl e \<Rightarrow> False | Inr m \<Rightarrow> True) \<and>
       state_of p = (case ctor of Inl e \<Rightarrow> Failed | Inr m \<Rightarrow> Ready) \<and>
       (\<forall>l\<in>set rest. \<exists>ev. l = Served ev (serve (model p) ev)))"
    using run_init_cases [OF r]
  proof (elim disjE exE conjE)
    assume "ls = []" and "p = init"
    then show ?thesis by simp
  next
    fix ctor ok rest
    assume ls: "ls = Startup ctor ok # rest" and b: "booted p"
      and m: "model p = (case ctor of Inl e \<Rightarrow> None | Inr m \<Rightarrow> Some m)"
      and k: "ok = (case ctor of Inl e \<Rightarrow> False | Inr m \<Rightarrow> True)"
      and rest: "\<forall>l\<in>set rest. \<exists>ev. l = Served ev (serve (model p) ev)"
    from b m have p: "p = \<lparr>booted = True, model = (case ctor of Inl e \<Rightarrow> None | Inr m \<Rightarrow> Some m)\<rparr>"
      by simp
    from b m have st: "state_of p = (case ctor of Inl e \<Rightarrow> Failed | Inr m \<Rightarrow> Ready)"
      by (simp add: state_of_def split: sum.splits)
    from ls p k st rest show ?thesis by blast
  qed
  have 3: "\<forall>ls' p'. state_of p \<noteq> Loading \<longrightarrow> run p ls' p' \<longrightarrow>
       p' = p \<and> (\<forall>l\<in>set ls'. \<exists>ev. l = Served ev (serve (model p) ev))"
  proof (intro allI impI)
    fix ls' p'
    assume "state_of p \<noteq> Loading" and r': "run p ls' p'"
    then have "booted p" by (auto simp: state_of_def split: if_splits)
    from run_booted [OF r' this]
    show "p' = p \<and> (\<forall>l\<in>set ls'. \<exists>ev. l = Served ev (serve (model p) ev))" .
  qed
  from 1 2 3 show ?thesis by blast
qed

theorem model_state_write_once_witness:
  "state_of init = Loading \<and>
   run init [Startup (Inr unit_model) True, Served Health (serve (Some unit_model) Health)]
     \<lparr>booted = True, model = Some unit_model\<rparr> \<and>
   state_of \<lparr>booted = True, model = Some unit_model\<rparr> = Ready \<and>
   run init [Startup (Inl (Raised (py ''no model''))) False] \<lparr>booted = True, model = None\<rparr> \<and>
   state_of \<lparr>booted = True, model = None\<rparr> = Failed"
  using model_state_write_once [OF ready_run [of unit_model]]
    model_state_write_once [OF failed_run] ready_run [of unit_model] failed_run
  by (simp add: state_of_def)

text \<open>
  Claim C7: with a Model Handle that meets the contract of the specification (every
  text that is non-empty after trimming is embedded, with normalization, as a vector of
  length \<open>D\<close> and of L2 norm within the tolerance of 1), every vector in a 200 answer
  of \<open>POST /embed\<close> or \<open>POST /embed/batch\<close> has length \<open>D\<close> and norm within the
  tolerance of 1, and \<open>dimensions\<close> is \<open>D\<close>; \<open>encode\<close> applied to the one-element
  list of such a text returns exactly one such vector; and a request with such a text,
  or with a list of strings of which at least one is such a text, is answered 200. Both
  handlers ask \<open>encode\<close> for normalized embeddings, which is what the contract covers.
\<close>

theorem embeddings_are_unit_vectors:
  assumes "handle_contract D eps f"
  shows "(\<forall>a n tm nm cs.
            embed_text (Some (spec_encode f)) rq = ((Embedding a n tm nm, 200), cs) \<longrightarrow>
            (\<exists>v. a = Array1 v \<and> length v = D \<and> n = D \<and> \<bar>l2_norm v - 1\<bar> \<le> eps)) \<and>
         (\<forall>a n d tm nm cs.
            embed_batch (Some (spec_encode f)) rq = ((Embeddings a n d tm nm, 200), cs) \<longrightarrow>
            (\<exists>rows. a = Array2 rows \<and> rows \<noteq> [] \<and> n = length rows \<and> d = D \<and>
               (\<forall>v\<in>set rows. length v = D \<and> \<bar>l2_norm v - 1\<bar> \<le> eps))) \<and>
         (\<forall>t. strip t \<noteq> [] \<longrightarrow>
            (\<exists>v. spec_encode f
                    \<lparr>sentences = JList [JStr t], convert_to_numpy = True,
                     normalize_embeddings = True, batch_size = Some 32\<rparr> = Inr (Array2 [v]) \<and>
                  length v = D \<and> \<bar>l2_norm v - 1\<bar> \<le> eps)) \<and>
         (get_json rq = Inr (JObj kvs) \<longrightarrow> map_of kvs (py ''text'') = Some (JStr u) \<longrightarrow>
            strip u \<noteq> [] \<longrightarrow>
            (\<exists>v. fst (embed_text (Some (spec_encode f)) rq) =
                    (Embedding (Array1 v) D (time_after rq - time_before rq)
                       ''nomic-embed-text-v1'', 200) \<and>
                  length v = D \<and> \<bar>l2_norm v - 1\<bar> \<le> eps)) \<and>
         (get_json rq = Inr (JObj kvs) \<longrightarrow>
            map_of kvs (py ''texts'') = Some (JList (map JStr ts)) \<longrightarrow>
            filter (\<lambda>t. strip t \<noteq> []) ts \<noteq> [] \<longrightarrow>
            (\<exists>rows. fst (embed_batch (Some (spec_encode f)) rq) =
                    (Embeddings (Array2 rows) (length (filter (\<lambda>t. strip t \<noteq> []) ts)) D
                       (time_after rq - time_before rq) ''nomic-embed-text-v1'', 200) \<and>
                  (\<forall>v\<in>set rows. length v = D \<and> \<bar>l2_norm v - 1\<bar> \<le> eps)))"
proof -
  let ?good = "\<lambda>v. length v = D \<and> \<bar>l2_norm v - 1\<bar> \<le> eps"
  from assms have ok: "\<exists>v. f True t = Inr v \<and> ?good v" if "strip t \<noteq> []" for t
    using that by (simp add: handle_contract_def)
  then have good: "?good v" if "strip t \<noteq> []" and "f True t = Inr v" for t v
    using that by fastforce
  have rows_good: "length rows = length ss \<and> (\<forall>v\<in>set rows. ?good v)"
    if "encode_rows (f True) (map JStr ss) = Inr rows" and "\<forall>t\<in>set ss. strip t \<noteq> []"
    for ss rows
    using that(1)
  proof (rule encode_rows_good)
    show "\<forall>t\<in>set ss. \<forall>v. f True t = Inr v \<longrightarrow> ?good v"
      using that(2) good by blast
  qed
  have A: "\<exists>v. a = Array1 v \<and> length v = D \<and> n = D \<and> \<bar>l2_norm v - 1\<bar> \<le> eps"
    if "embed_text (Some (spec_encode f)) rq = ((Embedding a n tm nm, 200), cs)"
    for a n tm nm cs
  proof -
    from embed_text_ok [OF that] obtain t where t: "strip t \<noteq> []"
      and r: "spec_encode f (text_call (JStr t)) = Inr a" and n: "n = len a" by blast
    from ok [OF t] obtain v where v: "f True t = Inr v" "?good v" by blast
    with r have "a = Array1 v" by (simp add: spec_encode_text)
    with v n show ?thesis by simp
  qed
  have B: "\<exists>rows. a = Array2 rows \<and> rows \<noteq> [] \<and> n = length rows \<and> d = D \<and>
               (\<forall>v\<in>set rows. length v = D \<and> \<bar>l2_norm v - 1\<bar> \<le> eps)"
    if "embed_batch (Some (spec_encode f)) rq = ((Embeddings a n d tm nm, 200), cs)"
    for a n d tm nm cs
  proof -
    from embed_batch_ok [OF that] obtain ss where ss: "ss \<noteq> []" "\<forall>t\<in>set ss. strip t \<noteq> []"
      and r: "spec_encode f (batch_call (map JStr ss)) = Inr a" and n: "n = len a"
      and d: "first_len a = Inr d" by blast
    from r obtain rows where rows: "encode_rows (f True) (map JStr ss) = Inr rows"
      and a: "a = Array2 rows" by (auto simp: spec_encode_batch split: sum.splits)
    from rows_good [OF rows ss(2)] have len: "length rows = length ss"
      and g: "\<forall>v\<in>set rows. ?good v" by auto
    from len ss(1) have ne: "rows \<noteq> []" by auto
    then have "hd rows \<in> set rows" by simp
    with g have "length (hd rows) = D" by blast
    with d a ne have "d = D" by (simp add: first_len_rows)
    with a ne n g show ?thesis by simp
  qed
  have C: "\<exists>v. spec_encode f
                    \<lparr>sentences = JList [JStr t], convert_to_numpy = True,
                     normalize_embeddings = True, batch_size = Some 32\<rparr> = Inr (Array2 [v]) \<and>
                  length v = D \<and> \<bar>l2_norm v - 1\<bar> \<le> eps"
    if "strip t \<noteq> []" for t
  proof -
    from ok [OF that] obtain v where v: "f True t = Inr v" "?good v" by blast
    then show ?thesis by (simp add: spec_encode_def)
  qed
  have E: "\<exists>v. fst (embed_text (Some (spec_encode f)) rq) =
                    (Embedding (Array1 v) D (time_after rq - time_before rq)
                       ''nomic-embed-text-v1'', 200) \<and>
                  length v = D \<and> \<bar>l2_norm v - 1\<bar> \<le> eps"
    if rq: "get_json rq = Inr (JObj kvs)" "map_of kvs (py ''text'') = Some (JStr u)"
      and u: "strip u \<noteq> []"
  proof -
    from ok [OF u] obtain v where v: "f True u = Inr v" "?good v" by blast
    then show ?thesis
      by (simp add: embed_text_valid [OF rq u] spec_encode_text)
  qed
  have F: "\<exists>rows. fst (embed_batch (Some (spec_encode f)) rq) =
                    (Embeddings (Array2 rows) (length (filter (\<lambda>t. strip t \<noteq> []) ts)) D
                       (time_after rq - time_before rq) ''nomic-embed-text-v1'', 200) \<and>
                  (\<forall>v\<in>set rows. length v = D \<and> \<bar>l2_norm v - 1\<bar> \<le> eps)"
    if rq: "get_json rq = Inr (JObj kvs)"
      "map_of kvs (py ''texts'') = Some (JList (map JStr ts))"
      and ne: "filter (\<lambda>t. strip t \<noteq> []) ts \<noteq> []"
  proof -
    let ?vs = "filter (\<lambda>t. strip t \<noteq> []) ts"
    have all: "\<forall>t\<in>set ?vs. strip t \<noteq> []" by simp
    then have "\<forall>t\<in>set ?vs. \<exists>v. f True t = Inr v" using ok by blast
    from encode_rows_succeeds [OF this] obtain rows
      where rows: "encode_rows (f True) (map JStr ?vs) = Inr rows" by blast
    from rows_good [OF rows all] have len: "length rows = length ?vs"
      and g: "\<forall>v\<in>set rows. ?good v" by auto
    from len ne have rne: "rows \<noteq> []" by auto
    then have "hd rows \<in> set rows" by simp
    with g have hd: "length (hd rows) = D" by blast
    have "fst (embed_batch (Some (spec_encode f)) rq) =
        (Embeddings (Array2 rows) (length ?vs) D
           (time_after rq - time_before rq) ''nomic-embed-text-v1'', 200)"
      using ne rows len rne hd
      by (simp add: embed_batch_list [OF rq] valid_texts_strings spec_encode_batch first_len_rows)
    with g show ?thesis by blast
  qed
  from A B C E F show ?thesis by blast
qed

theorem embeddings_are_unit_vectors_witness:
  "handle_contract 2 0 scaling \<and>
   embed_text (Some (spec_encode scaling)) (json_request (JObj [(py ''text'', JStr (py ''hello''))])) =
     ((Embedding (Array1 [1, 0]) 2 1 ''nomic-embed-text-v1'', 200), [text_call (JStr (py ''hello''))]) \<and>
   l2_norm [1, 0] = 1 \<and>
   fst (embed_batch (Some (spec_encode scaling))
     (json_request (JObj [(py ''texts'', JList [JStr (py ''a''), JStr (py ''b'')])]))) =
     (Embeddings (Array2 [[1, 0], [1, 0]]) 2 2 1 ''nomic-embed-text-v1'', 200)"
  using embeddings_are_unit_vectors [OF scaling_contract, of
      "json_request (JObj [(py ''text'', JStr (py ''hello''))])"
      "[(py ''text'', JStr (py ''hello''))]" "py ''hello''" "[]"]
    embeddings_are_unit_vectors [OF scaling_contract, of
      "json_request (JObj [(py ''texts'', JList [JStr (py ''a''), JStr (py ''b'')])])"
      "[(py ''texts'', JList [JStr (py ''a''), JStr (py ''b'')])]" "[]" "[py ''a'', py ''b'']"]
    scaling_contract
  by (simp add: json_request_def py_def strip_def isspace_def scaling_def l2_norm_def
      embed_text_def embed_batch_def key_missing_def spec_encode_def text_call_def batch_call_def
      Let_def)

text \<open>
  Claim C8: for a valid request the strings given to \<open>encode\<close> are the strings of the
  request, unchanged: \<open>POST /embed\<close> passes the value of \<open>text\<close> itself, and
  \<open>POST /embed/batch\<close> passes the elements of \<open>texts\<close> that are non-empty after
  trimming, each as it came. Trimming is used for the emptiness test only.
\<close>

theorem texts_reach_encode_unchanged:
  assumes "get_json rq = Inr (JObj kvs)"
  shows "(map_of kvs (py ''text'') = Some (JStr t) \<longrightarrow> strip t \<noteq> [] \<longrightarrow>
            map sentences (snd (embed_text (Some m) rq)) = [JStr t]) \<and>
         (map_of kvs (py ''texts'') = Some (JList (map JStr ts)) \<longrightarrow>
            filter (\<lambda>t. strip t \<noteq> []) ts \<noteq> [] \<longrightarrow>
            map sentences (snd (embed_batch (Some m) rq)) =
              [JList (map JStr (filter (\<lambda>t. strip t \<noteq> []) ts))])"
  using assms
  by (auto simp: embed_text_valid embed_batch_list valid_texts_strings text_call_def batch_call_def
      split: sum.splits)

theorem texts_reach_encode_unchanged_witness:
  "map sentences (snd (embed_text (Some unit_model)
      (json_request (JObj [(py ''text'', JStr (py ''  a  b  ''))])))) = [JStr (py ''  a  b  '')] \<and>
   map sentences (snd (embed_batch (Some unit_model)
      (json_request (JObj [(py ''texts'', JList [JStr (py '' ''), JStr (py ''  a  b  '')])])))) =
     [JList [JStr (py ''  a  b  '')]]"
  using texts_reach_encode_unchanged [of
      "json_request (JObj [(py ''text'', JStr (py ''  a  b  ''))])"
      "[(py ''text'', JStr (py ''  a  b  ''))]" "py ''  a  b  ''" unit_model "[]"]
    texts_reach_encode_unchanged [of
      "json_request (JObj [(py ''texts'', JList [JStr (py '' ''), JStr (py ''  a  b  '')])])"
      "[(py ''texts'', JList [JStr (py '' ''), JStr (py ''  a  b  '')])]" "[]" unit_model
      "[py '' '', py ''  a  b  '']"]
  by (simp add: json_request_def py_def strip_def isspace_def)

text \<open>
  Claim C9: a successful \<open>POST /embed/batch\<close> reports as \<open>dimensions\<close> the length of
  the first returned vector, and 0 when the model returned no vector. When the
  validation passed and the model returned one vector for each kept text, there is a
  first vector, \<open>dimensions\<close> is its length, and it is the common length of the
  vectors when they have one.
\<close>

theorem batch_dimensions:
  assumes "get_json rq = Inr (JObj kvs)"
    and "map_of kvs (py ''texts'') = Some (JList xs)"
    and "valid_texts xs = Inr vs" and "vs \<noteq> []"
    and "m (batch_call vs) = Inr (Array2 rows)"
  shows "\<exists>d. fst (embed_batch (Some m) rq) =
             (Embeddings (Array2 rows) (length rows) d
                (time_after rq - time_before rq) ''nomic-embed-text-v1'', 200) \<and>
           d = (if rows = [] then 0 else length (rows ! 0)) \<and>
           (length rows = length vs \<longrightarrow>
              rows \<noteq> [] \<and> d = length (rows ! 0) \<and>
              (\<forall>n. (\<forall>r\<in>set rows. length r = n) \<longrightarrow> d = n))"
  using assms by (cases rows) (auto simp: embed_batch_list)

theorem batch_dimensions_witness:
  "fst (embed_batch (Some unit_model)
      (json_request (JObj [(py ''texts'', JList [JStr (py ''a''), JStr (py ''b'')])]))) =
     (Embeddings (Array2 [[1, 0], [1, 0]]) 2 2 1 ''nomic-embed-text-v1'', 200)"
  using batch_dimensions [of
      "json_request (JObj [(py ''texts'', JList [JStr (py ''a''), JStr (py ''b'')])])"
      "[(py ''texts'', JList [JStr (py ''a''), JStr (py ''b'')])]"
      "[JStr (py ''a''), JStr (py ''b'')]" "[JStr (py ''a''), JStr (py ''b'')]"
      unit_model "[[1, 0], [1, 0]]"]
  by (simp add: json_request_def py_def strip_def isspace_def unit_model_def spec_encode_def
      batch_call_def)

text \<open>
  Claim C10: when the value of \<open>text\<close> (for \<open>POST /embed\<close>) or an element of
  \<open>texts\<close> (for \<open>POST /embed/batch\<close>) is not a string, the request is not answered
  400: with a loaded model, \<open>strip\<close> raises an AttributeError on that value, the
  handler's \<open>except\<close> clause catches it, the answer is 500 with the message of the
  exception, and \<open>encode\<close> is not called. The status is 500 in every state of the
  model.
\<close>

theorem non_string_text_is_500:
  assumes "get_json rq = Inr (JObj kvs)"
  shows "(map_of kvs (py ''text'') = Some v \<longrightarrow> \<not> is_str v \<longrightarrow>
            embed_text (Some m) rq = ((Error (Str (AttributeError v ''strip'')), 500), []) \<and>
            snd (fst (embed_text g rq)) = 500) \<and>
         (map_of kvs (py ''texts'') = Some (JList xs) \<longrightarrow> (\<exists>x\<in>set xs. \<not> is_str x) \<longrightarrow>
            (\<exists>x\<in>set xs. \<not> is_str x \<and>
               embed_batch (Some m) rq = ((Error (Str (AttributeError x ''strip'')), 500), [])) \<and>
            snd (fst (embed_batch g rq)) = 500)"
proof (intro conjI impI)
  assume v: "map_of kvs (py ''text'') = Some v" and n: "\<not> is_str v"
  have *: "\<And>m. embed_text (Some m) rq = ((Error (Str (AttributeError v ''strip'')), 500), [])"
    using assms v n
    by (simp add: embed_text_def key_missing_present py_strip_not_str caught_def)
  show "embed_text (Some m) rq = ((Error (Str (AttributeError v ''strip'')), 500), [])"
    by (rule *)
  show "snd (fst (embed_text g rq)) = 500"
    by (cases g) (simp_all add: embed_text_None *)
next
  assume l: "map_of kvs (py ''texts'') = Some (JList xs)" and n: "\<exists>x\<in>set xs. \<not> is_str x"
  from valid_texts_raises [OF n] obtain x where x: "x \<in> set xs" "\<not> is_str x"
    and r: "valid_texts xs = Inl (AttributeError x ''strip'')" by blast
  have *: "\<And>m. embed_batch (Some m) rq = ((Error (Str (AttributeError x ''strip'')), 500), [])"
    using assms l r by (simp add: embed_batch_list caught_def)
  from x * show "\<exists>x\<in>set xs. \<not> is_str x \<and>
      embed_batch (Some m) rq = ((Error (Str (AttributeError x ''strip'')), 500), [])"
    by blast
  show "snd (fst (embed_batch g rq)) = 500"
    by (cases g) (simp_all add: embed_batch_None *)
qed

theorem non_string_text_is_500_witness:
  "embed_text (Some unit_model) (json_request (JObj [(py ''text'', JInt 5)])) =
     ((Error (Str (AttributeError (JInt 5) ''strip'')), 500), []) \<and>
   embed_batch (Some unit_model)
     (json_request (JObj [(py ''texts'', JList [JStr (py ''a''), JNull])])) =
     ((Error (Str (AttributeError JNull ''strip'')), 500), [])"
  using non_string_text_is_500 [of
      "json_request (JObj [(py ''text'', JInt 5)])" "[(py ''text'', JInt 5)]" "JInt 5"
      unit_model "Some unit_model" "[]"]
    non_string_text_is_500 [of
      "json_request (JObj [(py ''texts'', JList [JStr (py ''a''), JNull])])"
      "[(py ''texts'', JList [JStr (py ''a''), JNull])]" JNull
      unit_model "Some unit_model" "[JStr (py ''a''), JNull]"]
  by (auto simp: json_request_def py_def)

end
